theory Spec2Isabelle
  imports Complex_Main
begin

section \<open>The EIA API client of pudl-scrapers (\<^verbatim>\<open>pudl_scrapers/bin/eia_api.py\<close>)\<close>

text \<open>
  The theory embeds the paginated download client: the construction of the request
  parameters, the version check on the first response, the page loop that writes every
  response body into one JSON array, and the compression of the finished file.
  Exceptions are values of \<open>py_error\<close>; a function that can raise returns
  \<open>py_error + 'a\<close>, with \<open>Inl\<close> for the exception. Warnings and log records of
  level info are collected in a list of events, the file system is a map from paths to
  contents, and the server is a function from the number of the request and its
  parameters to the response.

  Left out: the URL and the API key, which are the same for every request; the debug
  log records, of which only the subscripts that their f-strings evaluate are kept; the
  creation of the parent directory of the default output path (the file system has no
  directories, and opening a file for writing does not fail); the progress bar. Text
  written to a file is stored as it is.
\<close>

subsection \<open>Python values, exceptions and events\<close>

datatype pyval =
    PNone
  | PInt int
  | PStr string
  | PList "pyval list"
  | PDict "(string \<times> pyval) list"
  | PObject string

datatype py_error =
    HTTPError nat
  | JSONDecodeError
  | KeyError string
  | UnboundLocalError string
  | IndexError
  | ZeroDivisionError
  | TypeError
  | FileNotFoundError string
  | OSError

datatype event =
    Warn string
  | LogInfo string
  | LogDownloading int int

text \<open>\<^verbatim>\<open>bool(v)\<close> and \<^verbatim>\<open>v == 0\<close> on the values above.\<close>

fun truthy :: "pyval \<Rightarrow> bool" where
  "truthy PNone = False"
| "truthy (PInt i) = (i \<noteq> 0)"
| "truthy (PStr s) = (s \<noteq> [])"
| "truthy (PList xs) = (xs \<noteq> [])"
| "truthy (PDict kvs) = (kvs \<noteq> [])"
| "truthy (PObject r) = True"

fun eq_zero :: "pyval \<Rightarrow> bool" where
  "eq_zero (PInt i) = (i = 0)"
| "eq_zero _ = False"

text \<open>A dict keeps insertion order: an association list with distinct keys.\<close>

type_synonym pydict = "(string \<times> pyval) list"

fun dict_get :: "pydict \<Rightarrow> string \<Rightarrow> pyval option" where
  "dict_get [] k = None"
| "dict_get ((k', v) # kvs) k = (if k' = k then Some v else dict_get kvs k)"

fun dict_set :: "pydict \<Rightarrow> string \<Rightarrow> pyval \<Rightarrow> pydict" where
  "dict_set [] k v = [(k, v)]"
| "dict_set ((k', v') # kvs) k v =
     (if k' = k then (k, v) # kvs else (k', v') # dict_set kvs k v)"

text \<open>\<^verbatim>\<open>xs[i]\<close> for a non-negative literal index \<open>i\<close>.\<close>

definition py_index :: "'a list \<Rightarrow> nat \<Rightarrow> py_error + 'a" where
  "py_index xs i = (if i < length xs then Inr (xs ! i) else Inl IndexError)"

text \<open>\<^verbatim>\<open>s.split(sep)\<close> for a one-character separator: never empty.\<close>

fun split_on :: "char \<Rightarrow> string \<Rightarrow> string list" where
  "split_on sep [] = [[]]"
| "split_on sep (c # cs) =
     (if c = sep then [] # split_on sep cs
      else (c # hd (split_on sep cs)) # tl (split_on sep cs))"

text \<open>\<^verbatim>\<open>sep.join(parts)\<close>.\<close>

fun join :: "string \<Rightarrow> string list \<Rightarrow> string" where
  "join sep [] = []"
| "join sep [p] = p"
| "join sep (p # q # ps) = p @ sep @ join sep (q # ps)"

subsection \<open>Responses\<close>

text \<open>
  The decoded payload of a response, as far as the client reads it: the key
  \<^verbatim>\<open>apiVersion\<close> (absent: \<open>None\<close>), whether \<^verbatim>\<open>request.params\<close> is there (it is
  only formatted into a debug record), and \<^verbatim>\<open>response.total\<close> (absent: \<open>None\<close>).
\<close>

record resp_json =
  apiVersion :: "string option"
  has_request_params :: bool
  response_total :: "int option"

text \<open>
  A response: its status, its body as text, and what \<^verbatim>\<open>.json()\<close> gives for the body
  (\<open>None\<close> when the body does not decode).
\<close>

record response =
  status_code :: nat
  body_text :: string
  json :: "resp_json option"

definition raise_for_status :: "response \<Rightarrow> py_error + unit" where
  "raise_for_status r =
     (if 400 \<le> status_code r \<and> status_code r < 600 then Inl (HTTPError (status_code r))
      else Inr ())"

subsection \<open>The version check\<close>

definition API_VERSION :: string where
  "API_VERSION = ''2.0.2''"

definition version_unavailable_msg :: string where
  "version_unavailable_msg = ''API has changed: version number no longer accessible.''"

definition drift_suffix :: "string \<Rightarrow> string \<Rightarrow> string" where
  "drift_suffix expected observed = '' Expected: '' @ expected @ '', Observed: '' @ observed"

definition major_msg :: "string \<Rightarrow> string \<Rightarrow> string" where
  "major_msg expected observed =
     ''Major API version change - check that this data is still what we want!''
       @ drift_suffix expected observed"

definition minor_msg :: "string \<Rightarrow> string \<Rightarrow> string" where
  "minor_msg expected observed =
     ''Minor API version change - check that this data is still what we want!''
       @ drift_suffix expected observed"

definition patch_msg :: "string \<Rightarrow> string \<Rightarrow> string" where
  "patch_msg expected observed =
     ''Patch level version change in EIA API. Please update expected version.''
       @ drift_suffix expected observed"

text \<open>
  \<^verbatim>\<open>expected_parts[i] != observed_parts[i]\<close>: the left index is evaluated first, and
  either can raise.
\<close>

definition parts_differ :: "string list \<Rightarrow> string list \<Rightarrow> nat \<Rightarrow> py_error + bool" where
  "parts_differ expected_parts observed_parts i =
     (case py_index expected_parts i of
        Inl e \<Rightarrow> Inl e
      | Inr a \<Rightarrow>
          (case py_index observed_parts i of
             Inl e \<Rightarrow> Inl e
           | Inr b \<Rightarrow> Inr (a \<noteq> b)))"

text \<open>
  \<^verbatim>\<open>_check_api_version\<close>, with the class constant it compares against as a parameter.
  The result is the events emitted (a \<^verbatim>\<open>warn\<close> is \<open>Warn\<close>, a \<^verbatim>\<open>logger.info\<close>
  is \<open>LogInfo\<close>) and how the call ends. When the key is absent the handler warns and
  falls through to the \<^verbatim>\<open>split\<close> of a name that was never bound.
\<close>

definition check_api_version_against ::
  "string \<Rightarrow> resp_json \<Rightarrow> event list \<times> (py_error + unit)" where
  "check_api_version_against expected response_json =
     (case apiVersion response_json of
        None \<Rightarrow>
          ([Warn version_unavailable_msg], Inl (UnboundLocalError ''observed_api_version''))
      | Some observed_api_version \<Rightarrow>
          (let expected_parts = split_on (CHR ''.'') expected;
               observed_parts = split_on (CHR ''.'') observed_api_version
           in case parts_differ expected_parts observed_parts 0 of
                Inl e \<Rightarrow> ([], Inl e)
              | Inr True \<Rightarrow> ([Warn (major_msg expected observed_api_version)], Inr ())
              | Inr False \<Rightarrow>
                  (case parts_differ expected_parts observed_parts 1 of
                     Inl e \<Rightarrow> ([], Inl e)
                   | Inr True \<Rightarrow> ([Warn (minor_msg expected observed_api_version)], Inr ())
                   | Inr False \<Rightarrow>
                       (case parts_differ expected_parts observed_parts 2 of
                          Inl e \<Rightarrow> ([], Inl e)
                        | Inr True \<Rightarrow>
                            ([LogInfo (patch_msg expected observed_api_version)], Inr ())
                        | Inr False \<Rightarrow> ([], Inr ())))))"

definition check_api_version :: "resp_json \<Rightarrow> event list \<times> (py_error + unit)" where
  "check_api_version response_json = check_api_version_against API_VERSION response_json"

subsection \<open>The query options and the parameter mapping\<close>

text \<open>
  The keyword arguments of \<^verbatim>\<open>get_fuel_receipts_costs_aggregates\<close>, with the types
  of their annotations (\<^verbatim>\<open>end\<close>, \<^verbatim>\<open>length\<close> and \<^verbatim>\<open>sort\<close> carry a suffix:
  the plain names are taken).
\<close>

record options =
  frequency :: string
  data :: "string list option"
  start :: "string option"
  end_arg :: "string option"
  offset :: int
  length_arg :: int
  facets :: "(string \<times> pyval list) list option"
  sort_arg :: "(string \<times> string) list list option"
  out_path :: "string option"

definition opt_val :: "('a \<Rightarrow> pyval) \<Rightarrow> 'a option \<Rightarrow> pyval" where
  "opt_val f x = (case x of None \<Rightarrow> PNone | Some a \<Rightarrow> f a)"

definition facets_val :: "(string \<times> pyval list) list \<Rightarrow> pyval" where
  "facets_val fs = PDict (map (\<lambda>(k, vs). (k, PList vs)) fs)"

definition sort_val :: "(string \<times> string) list list \<Rightarrow> pyval" where
  "sort_val ds = PList (map (\<lambda>d. PDict (map (\<lambda>(k, v). (k, PStr v)) d)) ds)"

text \<open>\<^verbatim>\<open>data = list(data) if data else []\<close>.\<close>

definition normalise_data :: "string list option \<Rightarrow> string list" where
  "normalise_data d = (case d of None \<Rightarrow> [] | Some xs \<Rightarrow> if xs \<noteq> [] then xs else [])"

text \<open>The eight query options as they stand in the frame once \<^verbatim>\<open>data\<close> is rebound.\<close>

definition named_options :: "options \<Rightarrow> pydict" where
  "named_options opts =
     [(''frequency'', PStr (frequency opts)),
      (''data'', PList (map PStr (normalise_data (data opts)))),
      (''start'', opt_val PStr (start opts)),
      (''end'', opt_val PStr (end_arg opts)),
      (''offset'', PInt (offset opts)),
      (''length'', PInt (length_arg opts)),
      (''facets'', opt_val facets_val (facets opts)),
      (''sort'', opt_val sort_val (sort_arg opts))]"

definition exclude_locals :: "string list" where
  "exclude_locals = [''self'', ''out_path'', ''exclude_locals'']"

text \<open>\<^verbatim>\<open>locals()\<close> where the comprehension reads it: the receiver, the options, the
  output path and the set of excluded names.\<close>

definition locals_of :: "options \<Rightarrow> pydict" where
  "locals_of opts =
     (''self'', PObject ''EIAAPI'') # named_options opts
       @ [(''out_path'', opt_val PObject (out_path opts)),
          (''exclude_locals'', PObject ''set'')]"

text \<open>The comprehension of line 80.\<close>

definition param_dict_of :: "options \<Rightarrow> pydict" where
  "param_dict_of opts =
     filter (\<lambda>(k, v). (truthy v \<or> eq_zero v) \<and> k \<notin> set exclude_locals) (locals_of opts)"

text \<open>\<^verbatim>\<open>str(start)\<close> of an optional string.\<close>

definition str_opt :: "string option \<Rightarrow> string" where
  "str_opt x = (case x of None \<Rightarrow> ''None'' | Some s \<Rightarrow> s)"

text \<open>The default output path, under the client's output directory.\<close>

definition default_out_path :: "string \<Rightarrow> options \<Rightarrow> string" where
  "default_out_path output_dir opts =
     output_dir @ ''/''
       @ join ''_'' ([frequency opts] @ normalise_data (data opts) @ [str_opt (start opts)])
       @ ''.json''"

text \<open>The path written to: the one given, or the default one.\<close>

definition out_path_of :: "string \<Rightarrow> options \<Rightarrow> string" where
  "out_path_of output_dir opts =
     (case out_path opts of None \<Rightarrow> default_out_path output_dir opts | Some p \<Rightarrow> p)"

text \<open>The defaults of the signature.\<close>

definition default_options :: options where
  "default_options =
     \<lparr>frequency = ''annual'', data = Some [''cost-per-btu'', ''receipts-btu''],
      start = Some ''2001'', end_arg = None, offset = 0, length_arg = 5000,
      facets = None, sort_arg = None, out_path = None\<rparr>"

subsection \<open>The state: requests issued, events, files\<close>

record state =
  requests :: "pydict list"
  events :: "event list"
  files :: "string \<rightharpoonup> string"

text \<open>
  The server answers the \<open>n\<close>-th request of the run (counted from 0) with parameters
  \<open>p\<close> by \<open>srv n p\<close>. \<^verbatim>\<open>get\<close> records the parameters it sent.
\<close>

type_synonym server = "nat \<Rightarrow> pydict \<Rightarrow> response"

definition get :: "server \<Rightarrow> pydict \<Rightarrow> state \<Rightarrow> response \<times> state" where
  "get srv param_dict st =
     (srv (length (requests st)) param_dict, st\<lparr>requests := requests st @ [param_dict]\<rparr>)"

definition open_w :: "string \<Rightarrow> state \<Rightarrow> state" where
  "open_w path st = st\<lparr>files := (files st)(path \<mapsto> [])\<rparr>"

definition file_write :: "string \<Rightarrow> string \<Rightarrow> state \<Rightarrow> state" where
  "file_write path s st =
     st\<lparr>files := (files st)(path \<mapsto> (case files st path of None \<Rightarrow> s | Some c \<Rightarrow> c @ s))\<rparr>"

definition log_events :: "event list \<Rightarrow> state \<Rightarrow> state" where
  "log_events evs st = st\<lparr>events := events st @ evs\<rparr>"

subsection \<open>The page loop\<close>

definition page_separator :: string where
  "page_separator = [CHR '','', CHR 0x0A]"

text \<open>\<^verbatim>\<open>-(-n_total_results // length)\<close>, for a divisor that is not zero.\<close>

definition n_requests_of :: "int \<Rightarrow> int \<Rightarrow> int" where
  "n_requests_of n_total_results len = - ((- n_total_results) div len)"

text \<open>
  One turn of the loop over \<^verbatim>\<open>range(1, n_requests)\<close>: the offset is set in the copy
  of the parameters, the request is sent, and the body is written after a separator.
  The status of the response is not looked at.
\<close>

definition fetch_page ::
  "server \<Rightarrow> int \<Rightarrow> string \<Rightarrow> int \<Rightarrow> pydict \<times> state \<Rightarrow> pydict \<times> state" where
  "fetch_page srv len file_obj i = (\<lambda>(new_params, st).
     (let offset = len * i;
          new_params' = dict_set new_params ''offset'' (PInt offset);
          (response, st') = get srv new_params' st
      in (new_params', file_write file_obj (page_separator @ body_text response) st')))"

text \<open>\<^verbatim>\<open>_get_all_values\<close>; \<open>file_obj\<close> is the path of the open file.\<close>

definition get_all_values ::
  "server \<Rightarrow> pydict \<Rightarrow> string \<Rightarrow> state \<Rightarrow> (py_error + unit) \<times> state" where
  "get_all_values srv param_dict file_obj st0 =
     (let (first_response, st1) = get srv param_dict st0 in
      case raise_for_status first_response of
        Inl e \<Rightarrow> (Inl e, st1)
      | Inr _ \<Rightarrow>
     (case json first_response of
        None \<Rightarrow> (Inl JSONDecodeError, st1)
      | Some resp_json \<Rightarrow>
     (let (evs, checked) = check_api_version resp_json;
          st2 = log_events evs st1 in
      case checked of
        Inl e \<Rightarrow> (Inl e, st2)
      | Inr _ \<Rightarrow>
     (if \<not> has_request_params resp_json then (Inl (KeyError ''request''), st2)
      else
     (case response_total resp_json of
        None \<Rightarrow> (Inl (KeyError ''response''), st2)
      | Some n_total_results \<Rightarrow>
     (case dict_get param_dict ''length'' of
        None \<Rightarrow> (Inl (KeyError ''length''), st2)
      | Some (PInt len) \<Rightarrow>
          (if len = 0 then (Inl ZeroDivisionError, st2)
           else
             (let n_requests = n_requests_of n_total_results len;
                  st3 = log_events [LogDownloading n_total_results n_requests] st2;
                  st4 = file_write file_obj (body_text first_response) st3;
                  (new_params, st5) =
                    fold (fetch_page srv len file_obj) [1..n_requests - 1] (param_dict, st4)
              in (Inr (), st5)))
      | Some _ \<Rightarrow> (Inl TypeError, st2)))))))"

subsection \<open>Compression of the finished file\<close>

text \<open>
  What the compression needs from outside the repository: the gzip encoding of a byte
  string, the block size of \<^verbatim>\<open>shutil.copyfileobj\<close>, and which operations on the
  files the operating system refuses (the operation \<open>op\<close> raises when \<open>io_fails op\<close>).
\<close>

datatype io_op = OpenOut | ReadBlock nat | WriteBlock nat

record gzip_env =
  compress :: "string \<Rightarrow> string"
  COPY_BUFSIZE :: nat
  io_fails :: "io_op \<Rightarrow> bool"

text \<open>
  \<^verbatim>\<open>copyfileobj\<close>: read a block, stop when it is empty, write it. The result is how
  the copy ends and what has gone into the destination.
\<close>

function copyfileobj ::
  "nat \<Rightarrow> (io_op \<Rightarrow> bool) \<Rightarrow> nat \<Rightarrow> string \<Rightarrow> string \<Rightarrow> (py_error + unit) \<times> string" where
  "copyfileobj n fails k src written =
     (if fails (ReadBlock k) then (Inl OSError, written)
      else if take n src = [] then (Inr (), written)
      else if fails (WriteBlock k) then (Inl OSError, written)
      else copyfileobj n fails (Suc k) (drop n src) (written @ take n src))"
  by pat_completeness auto
termination
  by (relation "measure (\<lambda>(n, fails, k, src, written). length src)") auto

declare copyfileobj.simps [simp del]

text \<open>
  \<^verbatim>\<open>gzip_file\<close>. Leaving the \<^verbatim>\<open>with\<close> blocks closes the compressed file with what
  was written to it, also when the copy raised; the \<^verbatim>\<open>unlink\<close> comes after them.
\<close>

definition gzip_file ::
  "gzip_env \<Rightarrow> string \<Rightarrow> bool \<Rightarrow> (string \<rightharpoonup> string) \<Rightarrow> (py_error + unit) \<times> (string \<rightharpoonup> string)" where
  "gzip_file env filepath delete_uncompressed fs =
     (case fs filepath of
        None \<Rightarrow> (Inl (FileNotFoundError filepath), fs)
      | Some content \<Rightarrow>
          (if io_fails env OpenOut then (Inl OSError, fs)
           else
             (let (copied, written) =
                    copyfileobj (COPY_BUFSIZE env) (io_fails env) 0 content [];
                  fs1 = fs(filepath @ ''.gz'' \<mapsto> compress env written)
              in case copied of
                   Inl e \<Rightarrow> (Inl e, fs1)
                 | Inr _ \<Rightarrow>
                     (Inr (), if delete_uncompressed then fs1(filepath := None) else fs1))))"

subsection \<open>The whole download\<close>

text \<open>
  \<^verbatim>\<open>get_fuel_receipts_costs_aggregates\<close>: an exception inside the \<^verbatim>\<open>with\<close> block
  closes the file as it is and leaves the function, so neither the closing bracket nor
  the compression follows.
\<close>

definition get_fuel_receipts_costs_aggregates ::
  "gzip_env \<Rightarrow> server \<Rightarrow> string \<Rightarrow> options \<Rightarrow> state \<Rightarrow> (py_error + unit) \<times> state" where
  "get_fuel_receipts_costs_aggregates env srv output_dir opts st0 =
     (let param_dict = param_dict_of opts;
          path = out_path_of output_dir opts;
          st1 = file_write path ''['' (open_w path st0);
          (fetched, st2) = get_all_values srv param_dict path st1
      in case fetched of
           Inl e \<Rightarrow> (Inl e, st2)
         | Inr _ \<Rightarrow>
             (let st3 = file_write path '']'' st2;
                  (zipped, fs') = gzip_file env path True (files st3)
              in (zipped, st3\<lparr>files := fs'\<rparr>)))"

subsection \<open>The array production of the JSON grammar\<close>

text \<open>
  What it means for a text to be a JSON array of \<open>n\<close> elements, given what a JSON value
  is (\<open>V\<close>): an opening bracket, the values separated by commas, each with optional
  insignificant whitespace around it, and a closing bracket (RFC 8259, section 5).
\<close>

definition ws_char :: "char \<Rightarrow> bool" where
  "ws_char c = (c = CHR '' '' \<or> c = CHR 0x09 \<or> c = CHR 0x0A \<or> c = CHR 0x0D)"

inductive json_elements :: "(string \<Rightarrow> bool) \<Rightarrow> nat \<Rightarrow> string \<Rightarrow> bool"
  for V :: "string \<Rightarrow> bool" where
  one: "V v \<Longrightarrow> list_all ws_char w1 \<Longrightarrow> list_all ws_char w2
          \<Longrightarrow> json_elements V 1 (w1 @ v @ w2)"
| more: "V v \<Longrightarrow> list_all ws_char w1 \<Longrightarrow> list_all ws_char w2 \<Longrightarrow> json_elements V n rest
          \<Longrightarrow> json_elements V (Suc n) (w1 @ v @ w2 @ '','' @ rest)"

definition json_array :: "(string \<Rightarrow> bool) \<Rightarrow> nat \<Rightarrow> string \<Rightarrow> bool" where
  "json_array V n s =
     ((n = 0 \<and> (\<exists>w. list_all ws_char w \<and> s = ''['' @ w @ '']''))
      \<or> (\<exists>es. json_elements V n es \<and> s = ''['' @ es @ '']''))"

subsection \<open>Notions used to state the properties\<close>

text \<open>The content of a file, empty when there is none.\<close>

definition content_of :: "state \<Rightarrow> string \<Rightarrow> string" where
  "content_of st path = (case files st path of None \<Rightarrow> [] | Some c \<Rightarrow> c)"

text \<open>The parameters of page \<open>k\<close> of a download with parameters \<open>param_dict\<close>.\<close>

definition page_request :: "pydict \<Rightarrow> int \<Rightarrow> nat \<Rightarrow> pydict" where
  "page_request param_dict len k =
     (if k = 0 then param_dict else dict_set param_dict ''offset'' (PInt (len * int k)))"

text \<open>The bodies the server returns for pages \<open>0\<close> to \<open>n - 1\<close>, when \<open>base\<close> requests
  went before.\<close>

definition page_bodies :: "server \<Rightarrow> nat \<Rightarrow> pydict \<Rightarrow> int \<Rightarrow> nat \<Rightarrow> string list" where
  "page_bodies srv base param_dict len n =
     map (\<lambda>k. body_text (srv (base + k) (page_request param_dict len k))) [0..<n]"

text \<open>The number of pages of a download: the first one, and the turns of the loop.\<close>

definition n_pages :: "int \<Rightarrow> int \<Rightarrow> nat" where
  "n_pages n_total_results len = nat (max 1 (n_requests_of n_total_results len))"

text \<open>The offset a request carries, if it carries one.\<close>

definition offset_of :: "pydict \<Rightarrow> int option" where
  "offset_of params = (case dict_get params ''offset'' of Some (PInt i) \<Rightarrow> Some i | _ \<Rightarrow> None)"

text \<open>
  The text of the finished array for a download whose first response reports the total
  \<open>tot\<close>, and the state a download that runs to its end leaves behind.
\<close>

definition aggregate_text :: "server \<Rightarrow> nat \<Rightarrow> options \<Rightarrow> int \<Rightarrow> string" where
  "aggregate_text srv base opts tot =
     ''['' @ join page_separator
              (page_bodies srv base (param_dict_of opts) (length_arg opts)
                 (n_pages tot (length_arg opts))) @ '']''"

definition finished_state ::
  "gzip_env \<Rightarrow> server \<Rightarrow> string \<Rightarrow> options \<Rightarrow> state \<Rightarrow> event list \<Rightarrow> int \<Rightarrow> state" where
  "finished_state env srv output_dir opts st0 evs tot =
     st0\<lparr>requests := requests st0 @
            map (page_request (param_dict_of opts) (length_arg opts))
              [0..<n_pages tot (length_arg opts)],
          events := events st0 @ evs
            @ [LogDownloading tot (n_requests_of tot (length_arg opts))],
          files := (files st0)
            (out_path_of output_dir opts @ ''.gz'' \<mapsto>
               compress env (aggregate_text srv (length (requests st0)) opts tot),
             out_path_of output_dir opts := None)\<rparr>"

subsection \<open>Concrete inputs\<close>

text \<open>
  A state with nothing in it; an environment whose encoding is the identity and where
  no operation fails; one whose encoding reverses the bytes, with blocks of two bytes,
  and one of the same kind where the second write of the copy fails.
\<close>

definition empty_state :: state where
  "empty_state = \<lparr>requests = [], events = [], files = Map.empty\<rparr>"

definition plain_env :: gzip_env where
  "plain_env = \<lparr>compress = (\<lambda>x. x), COPY_BUFSIZE = 65536, io_fails = (\<lambda>op. False)\<rparr>"

definition rev_env :: gzip_env where
  "rev_env = \<lparr>compress = rev, COPY_BUFSIZE = 2, io_fails = (\<lambda>op. False)\<rparr>"

definition full_disk_env :: gzip_env where
  "full_disk_env = \<lparr>compress = rev, COPY_BUFSIZE = 2, io_fails = (\<lambda>op. op = WriteBlock 1)\<rparr>"

text \<open>
  A response with status 200 and body \<open>{}\<close> whose payload carries the version \<open>v\<close>
  (or none) and the total \<open>tot\<close>; a response with status 500; the server that always
  answers with the first, and the one that answers the second request with the other.
\<close>

definition ok_response :: "string option \<Rightarrow> int \<Rightarrow> response" where
  "ok_response v tot =
     \<lparr>status_code = 200, body_text = ''{}'',
      json = Some \<lparr>apiVersion = v, has_request_params = True, response_total = Some tot\<rparr>\<rparr>"

definition error_response :: response where
  "error_response = \<lparr>status_code = 500, body_text = ''Internal Server Error'', json = None\<rparr>"

definition steady_server :: "string option \<Rightarrow> int \<Rightarrow> server" where
  "steady_server v tot = (\<lambda>n params. ok_response v tot)"

definition failing_server :: "int \<Rightarrow> server" where
  "failing_server tot =
     (\<lambda>n params. if n = 1 then error_response else ok_response (Some ''2.0.2'') tot)"

section \<open>Lemmas about the model\<close>

lemma parts_differ_3:
  "i < 3 \<Longrightarrow> parts_differ [e0, e1, e2] [o0, o1, o2] i
     = Inr ([e0, e1, e2] ! i \<noteq> [o0, o1, o2] ! i)"
  by (simp add: parts_differ_def py_index_def)

lemma check_api_version_examples:
  "check_api_version (rj\<lparr>apiVersion := Some ''2.0.2''\<rparr>) = ([], Inr ())"
  "check_api_version (rj\<lparr>apiVersion := Some ''3.0.2''\<rparr>)
     = ([Warn (major_msg ''2.0.2'' ''3.0.2'')], Inr ())"
  "check_api_version (rj\<lparr>apiVersion := Some ''2.1.2''\<rparr>)
     = ([Warn (minor_msg ''2.0.2'' ''2.1.2'')], Inr ())"
  "check_api_version (rj\<lparr>apiVersion := Some ''2.0.5''\<rparr>)
     = ([LogInfo (patch_msg ''2.0.2'' ''2.0.5'')], Inr ())"
  by (simp_all add: check_api_version_def check_api_version_against_def parts_differ_3
      API_VERSION_def)

lemma dict_set_twice: "dict_set (dict_set d k v) k w = dict_set d k w"
  by (induction d) auto

lemma dict_get_set: "dict_get (dict_set d k v) k = Some v"
  by (induction d) auto

lemma join_Cons: "join sep (x # xs) = x @ concat (map (\<lambda>y. sep @ y) xs)"
  by (induction xs arbitrary: x) auto

lemma n_requests_ceiling: "n_requests_of t l = \<lceil>real_of_int t / real_of_int l\<rceil>"
  by (simp add: n_requests_of_def ceiling_divide_eq_div)

lemma upto_1_int: "[1..int n] = map int [1..<Suc n]"
proof (induction n)
  case 0
  show ?case by simp
next
  case (Suc n)
  have "[1..int (Suc n)] = [1..int n] @ [int (Suc n)]"
    using upto_rec2 [of 1 "int (Suc n)"] by simp
  with Suc show ?case by simp
qed

lemma upto_1_conv: "[1..m] = map int [1..<Suc (nat m)]"
proof (cases "0 \<le> m")
  case True
  then show ?thesis using upto_1_int [of "nat m"] by simp
next
  case False
  then show ?thesis by simp
qed

lemma fold_fetch_page:
  "files st f = Some c \<Longrightarrow>
   snd (fold (fetch_page srv len f) xs (p, st)) =
     st\<lparr>requests := requests st @ map (\<lambda>i. dict_set p ''offset'' (PInt (len * i))) xs,
        files := (files st)(f \<mapsto> c @
           concat (map (\<lambda>(k, i). page_separator @
                      body_text (srv k (dict_set p ''offset'' (PInt (len * i)))))
                    (enumerate (length (requests st)) xs)))\<rparr>"
proof (induction xs arbitrary: p st c)
  case Nil
  then have "(files st)(f \<mapsto> c) = files st" by (simp add: fun_upd_idem_iff)
  then show ?case by simp
next
  case (Cons i xs)
  let ?p' = "dict_set p ''offset'' (PInt (len * i))"
  let ?s = "page_separator @ body_text (srv (length (requests st)) ?p')"
  let ?st' = "file_write f ?s (snd (get srv ?p' st))"
  have step: "fold (fetch_page srv len f) (i # xs) (p, st)
                = fold (fetch_page srv len f) xs (?p', ?st')"
    by (simp add: fetch_page_def get_def Let_def)
  have f': "files ?st' f = Some (c @ ?s)"
    using Cons.prems by (simp add: file_write_def get_def)
  have st': "?st' = st\<lparr>requests := requests st @ [?p'], files := (files st)(f \<mapsto> c @ ?s)\<rparr>"
    using Cons.prems by (simp add: file_write_def get_def)
  have "snd (fold (fetch_page srv len f) (i # xs) (p, st))
          = snd (fold (fetch_page srv len f) xs (?p', ?st'))"
    by (simp only: step)
  also note Cons.IH [OF f']
  finally have E: "snd (fold (fetch_page srv len f) (i # xs) (p, st)) = ?st'
         \<lparr>requests := requests ?st' @ map (\<lambda>i. dict_set ?p' ''offset'' (PInt (len * i))) xs,
            files := (files ?st')(f \<mapsto> (c @ ?s) @
              concat (map (\<lambda>(k, i). page_separator @
                        body_text (srv k (dict_set ?p' ''offset'' (PInt (len * i)))))
                      (enumerate (length (requests ?st')) xs)))\<rparr>" .
  show ?case
    unfolding E by (rule state.equality) (simp_all add: st' dict_set_twice fun_eq_iff)
qed

lemma enumerate_map_int_upt:
  "map (\<lambda>(k, i). g k i) (enumerate (Suc b) (map int [Suc 0..<n]))
     = map (\<lambda>k. g (b + k) (int k)) [Suc 0..<n]"
  by (rule nth_equalityI) (simp_all add: nth_enumerate_eq)

lemma copy_ok: "0 < n \<Longrightarrow> copyfileobj n fails k src w = (Inr u, w') \<Longrightarrow> w' = w @ src"
proof (induction n fails k src w rule: copyfileobj.induct)
  case (1 n fails k src written)
  show ?case
  proof (cases "fails (ReadBlock k) \<or> take n src = [] \<or> fails (WriteBlock k)")
    case True
    with "1.prems" show ?thesis
      by (subst (asm) copyfileobj.simps) (auto split: if_splits)
  next
    case False
    with "1.prems" have "copyfileobj n fails (Suc k) (drop n src) (written @ take n src) = (Inr u, w')"
      by (subst (asm) copyfileobj.simps) simp
    with "1.IH" False "1.prems"(1) have "w' = (written @ take n src) @ drop n src" by blast
    then show ?thesis by simp
  qed
qed

lemma copy_no_faults: "0 < n \<Longrightarrow> (\<And>op. \<not> fails op) \<Longrightarrow> copyfileobj n fails k src w = (Inr (), w @ src)"
proof (induction n fails k src w rule: copyfileobj.induct)
  case (1 n fails k src written)
  show ?case
  proof (cases "take n src = []")
    case True
    with "1.prems" show ?thesis by (subst copyfileobj.simps) simp
  next
    case False
    with "1.prems" "1.IH" have "copyfileobj n fails (Suc k) (drop n src) (written @ take n src) = (Inr (), (written @ take n src) @ drop n src)"
      by blast
    with False "1.prems" show ?thesis by (subst copyfileobj.simps) simp
  qed
qed


lemma Suc_nat_pages: "Suc (nat (n_requests_of tot len - 1)) = n_pages tot len"
  by (simp add: n_pages_def max_def) arith

lemma loop_requests:
  "p # map (\<lambda>i. dict_set p ''offset'' (PInt (len * i))) (map int [1..<n]) = map (page_request p len) [0..<n]" if "0 < n"
proof -
  have "[0..<n] = 0 # [1..<n]" using that by (simp add: upt_conv_Cons)
  then show ?thesis by (simp add: page_request_def comp_def)
qed

lemma loop_bodies:
  assumes "0 < n"
  shows "body_text (srv b p) @ concat (map (\<lambda>(k, i). page_separator @
            body_text (srv k (dict_set p ''offset'' (PInt (len * i)))))
              (enumerate (Suc b) (map int [1..<n])))
         = join page_separator (page_bodies srv b p len n)"
proof -
  have "[0..<n] = 0 # [1..<n]" using assms by (simp add: upt_conv_Cons)
  then have "page_bodies srv b p len n = body_text (srv b p) #
       map (\<lambda>k. body_text (srv (b + k) (dict_set p ''offset'' (PInt (len * int k))))) [1..<n]"
    by (simp add: page_bodies_def page_request_def)
  then show ?thesis
    by (simp add: join_Cons enumerate_map_int_upt comp_def)
qed

lemma get_all_values_ok:
  assumes status: "raise_for_status (srv (length (requests st0)) p) = Inr ()"
    and js: "json (srv (length (requests st0)) p) = Some rj"
    and chk: "check_api_version rj = (evs, Inr ())"
    and rp: "has_request_params rj"
    and total: "response_total rj = Some tot"
    and len: "dict_get p ''length'' = Some (PInt len)" "len \<noteq> 0"
  shows "get_all_values srv p f st0 =
           (Inr (),
            st0\<lparr>requests := requests st0 @ map (page_request p len) [0..<n_pages tot len],
                events := events st0 @ evs @ [LogDownloading tot (n_requests_of tot len)],
                files := (files st0)(f \<mapsto> content_of st0 f @
                  join page_separator
                    (page_bodies srv (length (requests st0)) p len (n_pages tot len)))\<rparr>)"
proof -
  let ?b = "length (requests st0)"
  let ?r0 = "srv ?b p"
  let ?n = "n_requests_of tot len"
  let ?st4 = "file_write f (body_text ?r0)
               (log_events [LogDownloading tot ?n]
                 (log_events evs (snd (get srv p st0))))"
  have pos: "0 < n_pages tot len" by (simp add: n_pages_def max_def)
  have run: "get_all_values srv p f st0 =
               (Inr (), snd (fold (fetch_page srv len f) [1..?n - 1] (p, ?st4)))"
    using assms by (simp add: get_all_values_def get_def Let_def split_beta)
  have file4: "files ?st4 f = Some (content_of st0 f @ body_text ?r0)"
    by (simp add: file_write_def log_events_def get_def content_of_def split: option.splits)
  have req4: "requests ?st4 = requests st0 @ [p]"
    by (simp add: file_write_def log_events_def get_def)
  have xs: "[1..?n - 1] = map int [1..<n_pages tot len]"
    using upto_1_conv [of "?n - 1"] by (simp add: Suc_nat_pages)
  show ?thesis
    unfolding run fold_fetch_page [OF file4] xs
    apply (simp only: prod.inject simp_thms)
    apply (rule state.equality)
    using loop_requests [OF pos, of p len]
      loop_bodies [OF pos, of srv "length (requests st0)" p len]
       apply (simp_all add: req4 fun_eq_iff)
     apply (simp_all add: file_write_def log_events_def get_def)
    done
qed

lemma gzip_file_ok:
  assumes "gzip_file env path del fs = (Inr u, fs')" and "0 < COPY_BUFSIZE env"
  shows "\<exists>c. fs path = Some c \<and>
           fs' = (if del then (fs(path @ ''.gz'' \<mapsto> compress env c))(path := None)
                  else fs(path @ ''.gz'' \<mapsto> compress env c))"
proof (cases "fs path")
  case None
  with assms show ?thesis by (simp add: gzip_file_def)
next
  case (Some c)
  obtain r w where cp: "copyfileobj (COPY_BUFSIZE env) (io_fails env) 0 c [] = (r, w)"
    by (cases "copyfileobj (COPY_BUFSIZE env) (io_fails env) 0 c []") 
  with assms Some have r: "r = Inr ()" and open_ok: "\<not> io_fails env OpenOut"
    by (auto simp add: gzip_file_def Let_def split: if_splits sum.splits)
  with cp copy_ok [OF assms(2), of "io_fails env" 0 c "[]" "()" w] have "w = c" by simp
  with assms Some cp r open_ok show ?thesis
    by (auto simp add: gzip_file_def Let_def split: if_splits)
qed

lemma gzip_file_no_faults:
  assumes "fs path = Some c" and "0 < COPY_BUFSIZE env" and "\<And>op. \<not> io_fails env op"
  shows "gzip_file env path del fs =
           (Inr (), if del then (fs(path @ ''.gz'' \<mapsto> compress env c))(path := None)
                  else fs(path @ ''.gz'' \<mapsto> compress env c))"
  using assms by (simp add: gzip_file_def copy_no_faults)

lemma eq_zero_iff: "eq_zero v \<longleftrightarrow> v = PInt 0"
  by (cases v) auto

lemma dict_get_filter:
  "distinct (map fst kvs) \<Longrightarrow>
   dict_get (filter P kvs) k =
     (case dict_get kvs k of None \<Rightarrow> None | Some v \<Rightarrow> if P (k, v) then Some v else None)"
proof (induction kvs)
  case Nil
  show ?case by simp
next
  case (Cons kv kvs)
  obtain k' v' where kv: "kv = (k', v')" by (cases kv)
  have absent: "dict_get kvs k = None" if "k \<notin> fst ` set kvs" for k
    using that by (induction kvs) auto
  from Cons kv absent [of k'] show ?case by (auto split: option.splits)
qed

lemma named_options_keys:
  "map fst (named_options opts)
     = [''frequency'', ''data'', ''start'', ''end'', ''offset'', ''length'', ''facets'', ''sort'']"
  by (simp add: named_options_def)

lemma param_dict_of_eq:
  "param_dict_of opts = filter (\<lambda>(k, v). truthy v \<or> v = PInt 0) (named_options opts)"
  by (simp add: param_dict_of_def locals_of_def exclude_locals_def named_options_def eq_zero_iff)

lemma dict_get_param_dict_of:
  "dict_get (param_dict_of opts) k =
     (case dict_get (named_options opts) k of
        None \<Rightarrow> None
      | Some v \<Rightarrow> if truthy v \<or> v = PInt 0 then Some v else None)"
  unfolding param_dict_of_eq
  by (subst dict_get_filter) (simp_all add: named_options_keys split: option.splits)

lemma param_dict_of_offset: "dict_get (param_dict_of opts) ''offset'' = Some (PInt (offset opts))"
  by (simp add: dict_get_param_dict_of named_options_def)

lemma param_dict_of_length: "dict_get (param_dict_of opts) ''length'' = Some (PInt (length_arg opts))"
  by (simp add: dict_get_param_dict_of named_options_def)

lemma n_requests_pos: "1 \<le> len \<Longrightarrow> 1 \<le> tot \<Longrightarrow> 1 \<le> n_requests_of tot len"
proof -
  assume "1 \<le> len" "1 \<le> tot"
  then have "(- tot) div len < 0" by (simp add: pos_imp_zdiv_neg_iff)
  then show ?thesis by (simp add: n_requests_of_def)
qed

lemma get_all_values_InrD:
  assumes "get_all_values srv p f st0 = (Inr u, st')"
  shows "\<exists>rj evs tot len.
           raise_for_status (srv (length (requests st0)) p) = Inr ()
         \<and> json (srv (length (requests st0)) p) = Some rj
         \<and> check_api_version rj = (evs, Inr ())
         \<and> has_request_params rj
         \<and> response_total rj = Some tot
         \<and> dict_get p ''length'' = Some (PInt len) \<and> len \<noteq> 0"
  using assms
  by (auto simp add: get_all_values_def get_def Let_def split_beta prod_eq_iff
      split: sum.splits option.splits pyval.splits if_splits)

lemma opened_file:
  "requests (file_write path s (open_w path st)) = requests st"
  "events (file_write path s (open_w path st)) = events st"
  "files (file_write path s (open_w path st)) = (files st)(path \<mapsto> s)"
  "content_of (file_write path s (open_w path st)) path = s"
  by (simp_all add: file_write_def open_w_def content_of_def)

lemma write_phase:
  assumes "raise_for_status (srv (length (requests st0)) (param_dict_of opts)) = Inr ()"
    and "json (srv (length (requests st0)) (param_dict_of opts)) = Some rj"
    and "check_api_version rj = (evs, Inr ())"
    and "has_request_params rj"
    and "response_total rj = Some tot"
    and "length_arg opts \<noteq> 0"
  shows "get_all_values srv (param_dict_of opts) path (file_write path ''['' (open_w path st0)) =
           (Inr (),
            st0\<lparr>requests := requests st0 @
                  map (page_request (param_dict_of opts) (length_arg opts))
                    [0..<n_pages tot (length_arg opts)],
                events := events st0 @ evs
                  @ [LogDownloading tot (n_requests_of tot (length_arg opts))],
                files := (files st0)(path \<mapsto> ''['' @
                  join page_separator
                    (page_bodies srv (length (requests st0)) (param_dict_of opts)
                       (length_arg opts) (n_pages tot (length_arg opts))))\<rparr>)"
proof -
  let ?st1 = "file_write path ''['' (open_w path st0)"
  have "get_all_values srv (param_dict_of opts) path ?st1 =
     (Inr (),
      ?st1\<lparr>requests := requests ?st1 @
             map (page_request (param_dict_of opts) (length_arg opts))
               [0..<n_pages tot (length_arg opts)],
           events := events ?st1 @ evs
             @ [LogDownloading tot (n_requests_of tot (length_arg opts))],
           files := (files ?st1)(path \<mapsto> content_of ?st1 path @
             join page_separator
               (page_bodies srv (length (requests ?st1)) (param_dict_of opts)
                  (length_arg opts) (n_pages tot (length_arg opts))))\<rparr>)"
    using assms by (intro get_all_values_ok) (simp_all add: opened_file param_dict_of_length)
  also have "?st1\<lparr>requests := requests ?st1 @
             map (page_request (param_dict_of opts) (length_arg opts))
               [0..<n_pages tot (length_arg opts)],
           events := events ?st1 @ evs
             @ [LogDownloading tot (n_requests_of tot (length_arg opts))],
           files := (files ?st1)(path \<mapsto> content_of ?st1 path @
             join page_separator
               (page_bodies srv (length (requests ?st1)) (param_dict_of opts)
                  (length_arg opts) (n_pages tot (length_arg opts))))\<rparr>
       = st0\<lparr>requests := requests st0 @
                  map (page_request (param_dict_of opts) (length_arg opts))
                    [0..<n_pages tot (length_arg opts)],
                events := events st0 @ evs
                  @ [LogDownloading tot (n_requests_of tot (length_arg opts))],
                files := (files st0)(path \<mapsto> ''['' @
                  join page_separator
                    (page_bodies srv (length (requests st0)) (param_dict_of opts)
                       (length_arg opts) (n_pages tot (length_arg opts))))\<rparr>"
    by (rule state.equality) (simp_all add: file_write_def open_w_def content_of_def)
  finally show ?thesis .
qed

lemma closed_file:
  assumes "get_all_values srv (param_dict_of opts) path (file_write path ''['' (open_w path st0))
             = (Inr (), st2)"
    and "json (srv (length (requests st0)) (param_dict_of opts)) = Some rj"
    and "response_total rj = Some tot"
  shows "\<exists>evs. check_api_version rj = (evs, Inr ())
         \<and> raise_for_status (srv (length (requests st0)) (param_dict_of opts)) = Inr ()
         \<and> has_request_params rj \<and> length_arg opts \<noteq> 0
         \<and> file_write path '']'' st2 =
             st0\<lparr>requests := requests st0 @
                    map (page_request (param_dict_of opts) (length_arg opts))
                      [0..<n_pages tot (length_arg opts)],
                  events := events st0 @ evs
                    @ [LogDownloading tot (n_requests_of tot (length_arg opts))],
                  files := (files st0)
                    (path \<mapsto> aggregate_text srv (length (requests st0)) opts tot)\<rparr>"
proof -
  from get_all_values_InrD [OF assms(1)] assms(2,3) obtain evs where
    fw: "raise_for_status (srv (length (requests st0)) (param_dict_of opts)) = Inr ()"
      "check_api_version rj = (evs, Inr ())" "has_request_params rj" "length_arg opts \<noteq> 0"
    by (auto simp add: opened_file param_dict_of_length)
  from write_phase [of srv st0 opts rj evs tot path] fw assms
  have "st2 = st0\<lparr>requests := requests st0 @
                  map (page_request (param_dict_of opts) (length_arg opts))
                    [0..<n_pages tot (length_arg opts)],
                events := events st0 @ evs
                  @ [LogDownloading tot (n_requests_of tot (length_arg opts))],
                files := (files st0)(path \<mapsto> ''['' @
                  join page_separator
                    (page_bodies srv (length (requests st0)) (param_dict_of opts)
                       (length_arg opts) (n_pages tot (length_arg opts))))\<rparr>"
    by simp
  then have "file_write path '']'' st2 =
             st0\<lparr>requests := requests st0 @
                    map (page_request (param_dict_of opts) (length_arg opts))
                      [0..<n_pages tot (length_arg opts)],
                  events := events st0 @ evs
                    @ [LogDownloading tot (n_requests_of tot (length_arg opts))],
                  files := (files st0)
                    (path \<mapsto> aggregate_text srv (length (requests st0)) opts tot)\<rparr>"
    by (intro state.equality) (simp_all add: file_write_def aggregate_text_def)
  with fw show ?thesis by blast
qed

lemma download_InrD:
  assumes ok: "get_fuel_receipts_costs_aggregates env srv output_dir opts st0 = (Inr (), st')"
    and buf: "0 < COPY_BUFSIZE env"
    and js: "json (srv (length (requests st0)) (param_dict_of opts)) = Some rj"
    and tot: "response_total rj = Some tot"
  shows "\<exists>evs. check_api_version rj = (evs, Inr ())
           \<and> st' = finished_state env srv output_dir opts st0 evs tot"
proof -
  let ?path = "out_path_of output_dir opts"
  let ?st1 = "file_write ?path ''['' (open_w ?path st0)"
  obtain r st2 where g: "get_all_values srv (param_dict_of opts) ?path ?st1 = (r, st2)"
    by (cases "get_all_values srv (param_dict_of opts) ?path ?st1")
  with ok have r: "r = Inr ()"
    by (cases r) (simp_all add: get_fuel_receipts_costs_aggregates_def Let_def)
  from closed_file [OF g [unfolded r] js tot] obtain evs where
    chk: "check_api_version rj = (evs, Inr ())"
    and st3: "file_write ?path '']'' st2 =
             st0\<lparr>requests := requests st0 @
                    map (page_request (param_dict_of opts) (length_arg opts))
                      [0..<n_pages tot (length_arg opts)],
                  events := events st0 @ evs
                    @ [LogDownloading tot (n_requests_of tot (length_arg opts))],
                  files := (files st0)
                    (?path \<mapsto> aggregate_text srv (length (requests st0)) opts tot)\<rparr>"
    by blast
  let ?st3 = "file_write ?path '']'' st2"
  obtain z fs' where gz: "gzip_file env ?path True (files ?st3) = (z, fs')"
    by (cases "gzip_file env ?path True (files ?st3)")
  with ok g r have z: "z = Inr ()" and st': "st' = ?st3\<lparr>files := fs'\<rparr>"
    by (simp_all add: get_fuel_receipts_costs_aggregates_def Let_def)
  from gzip_file_ok [OF gz [unfolded z] buf] st3
  have "fs' = (files st0)
            (?path \<mapsto> aggregate_text srv (length (requests st0)) opts tot,
             ?path @ ''.gz'' \<mapsto>
               compress env (aggregate_text srv (length (requests st0)) opts tot),
             ?path := None)"
    by simp
  then have "fs' = (files st0)
            (?path @ ''.gz'' \<mapsto>
               compress env (aggregate_text srv (length (requests st0)) opts tot),
             ?path := None)"
    by (simp add: fun_eq_iff)
  with st' st3 have "st' = finished_state env srv output_dir opts st0 evs tot"
    by (simp add: finished_state_def)
  with chk show ?thesis by blast
qed


lemma download_ok:
  assumes "raise_for_status (srv (length (requests st0)) (param_dict_of opts)) = Inr ()"
    and "json (srv (length (requests st0)) (param_dict_of opts)) = Some rj"
    and "check_api_version rj = (evs, Inr ())"
    and "has_request_params rj"
    and "response_total rj = Some tot"
    and "length_arg opts \<noteq> 0"
    and "0 < COPY_BUFSIZE env"
    and "\<And>op. \<not> io_fails env op"
  shows "get_fuel_receipts_costs_aggregates env srv output_dir opts st0
           = (Inr (), finished_state env srv output_dir opts st0 evs tot)"
proof -
  let ?path = "out_path_of output_dir opts"
  let ?txt = "aggregate_text srv (length (requests st0)) opts tot"
  obtain st2 where g: "get_all_values srv (param_dict_of opts) ?path
      (file_write ?path ''['' (open_w ?path st0)) = (Inr (), st2)"
    using write_phase [of srv st0 opts rj evs tot ?path] assms(1-6) by blast
  from closed_file [OF g assms(2,5)] assms(3)
  have st3: "file_write ?path '']'' st2 =
             st0\<lparr>requests := requests st0 @
                    map (page_request (param_dict_of opts) (length_arg opts))
                      [0..<n_pages tot (length_arg opts)],
                  events := events st0 @ evs
                    @ [LogDownloading tot (n_requests_of tot (length_arg opts))],
                  files := (files st0)(?path \<mapsto> ?txt)\<rparr>"
    by auto
  then have "files (file_write ?path '']'' st2) ?path = Some ?txt" by simp
  with gzip_file_no_faults [of "files (file_write ?path '']'' st2)" ?path ?txt env True]
    assms(7,8)
  have gz: "gzip_file env ?path True (files (file_write ?path '']'' st2))
         = (Inr (), (files (file_write ?path '']'' st2))
                       (?path @ ''.gz'' \<mapsto> compress env ?txt, ?path := None))"
    by simp
  have "(files (file_write ?path '']'' st2))
                       (?path @ ''.gz'' \<mapsto> compress env ?txt, ?path := None)
      = (files st0)(?path @ ''.gz'' \<mapsto> compress env ?txt, ?path := None)"
    by (simp add: st3 fun_eq_iff)
  with gz g st3 show ?thesis
    by (simp add: get_fuel_receipts_costs_aggregates_def Let_def finished_state_def)
qed

lemma finished_state_files:
  "files (finished_state env srv output_dir opts st0 evs tot) (out_path_of output_dir opts @ ''.gz'')
     = Some (compress env (aggregate_text srv (length (requests st0)) opts tot))"
  "files (finished_state env srv output_dir opts st0 evs tot) (out_path_of output_dir opts) = None"
  by (simp_all add: finished_state_def)

lemma download_first_page_error:
  assumes "raise_for_status (srv (length (requests st0)) (param_dict_of opts)) = Inl e"
  shows "get_fuel_receipts_costs_aggregates env srv output_dir opts st0
           = (Inl e, st0\<lparr>requests := requests st0 @ [param_dict_of opts],
                          files := (files st0)(out_path_of output_dir opts \<mapsto> ''['')\<rparr>)"
  using assms
  by (simp add: get_fuel_receipts_costs_aggregates_def get_all_values_def get_def Let_def
      file_write_def open_w_def)

lemma download_version_missing:
  assumes "raise_for_status (srv (length (requests st0)) (param_dict_of opts)) = Inr ()"
    and "json (srv (length (requests st0)) (param_dict_of opts)) = Some rj"
    and "apiVersion rj = None"
  shows "get_fuel_receipts_costs_aggregates env srv output_dir opts st0
           = (Inl (UnboundLocalError ''observed_api_version''),
              st0\<lparr>requests := requests st0 @ [param_dict_of opts],
                  events := events st0 @ [Warn version_unavailable_msg],
                  files := (files st0)(out_path_of output_dir opts \<mapsto> ''['')\<rparr>)"
  using assms
  by (simp add: get_fuel_receipts_costs_aggregates_def get_all_values_def get_def Let_def
      file_write_def open_w_def log_events_def check_api_version_def
      check_api_version_against_def)

lemma json_elements_join:
  "bodies \<noteq> [] \<Longrightarrow> list_all V bodies \<Longrightarrow> list_all ws_char w
     \<Longrightarrow> json_elements V (length bodies) (w @ join page_separator bodies)"
proof (induction bodies arbitrary: w)
  case Nil
  then show ?case by simp
next
  case (Cons b bs)
  show ?case
  proof (cases bs)
    case Nil
    with Cons.prems json_elements.one [of V b w "[]"] show ?thesis by simp
  next
    case (Cons b' bs')
    have nl: "list_all ws_char [CHR 0x0A]" by (simp add: ws_char_def)
    from Cons.IH [OF _ _ nl] Cons.prems Cons
    have rest: "json_elements V (length bs) ([CHR 0x0A] @ join page_separator bs)" by simp
    from json_elements.more [of V b w "[]", OF _ _ _ rest] Cons.prems Cons
    show ?thesis by (simp add: page_separator_def)
  qed
qed

lemma json_array_join:
  assumes "bodies \<noteq> []" and "list_all V bodies"
  shows "json_array V (length bodies) (''['' @ join page_separator bodies @ '']'')"
proof -
  from json_elements_join [OF assms, of "[]"]
  have "json_elements V (length bodies) (join page_separator bodies)" by simp
  then show ?thesis unfolding json_array_def by blast
qed

lemma offset_of_page_request:
  "offset_of (page_request (param_dict_of opts) len k)
     = Some (if k = 0 then offset opts else len * int k)"
  by (simp add: offset_of_def page_request_def dict_get_set param_dict_of_offset)

lemma sorted_multiples: "0 < len \<Longrightarrow> sorted_wrt (<) (map (\<lambda>k. len * int k) [m..<n])"
  by (simp add: sorted_wrt_map sorted_wrt_mono_rel [OF _ sorted_wrt_upt])

lemma param_dict_of_default:
  "param_dict_of (default_options\<lparr>offset := off\<rparr>) =
     [(''frequency'', PStr ''annual''),
      (''data'', PList [PStr ''cost-per-btu'', PStr ''receipts-btu'']),
      (''start'', PStr ''2001''), (''offset'', PInt off), (''length'', PInt 5000)]"
  by (simp add: param_dict_of_eq named_options_def default_options_def normalise_data_def
      opt_val_def)

lemma out_path_of_default:
  "out_path_of ''out'' default_options = ''out/annual_cost-per-btu_receipts-btu_2001.json''"
  by (simp add: out_path_of_def default_out_path_def default_options_def normalise_data_def
      str_opt_def)

lemma steady_first_response:
  "raise_for_status (steady_server v tot n p) = Inr ()"
  "json (steady_server v tot n p)
     = Some \<lparr>apiVersion = v, has_request_params = True, response_total = Some tot\<rparr>"
  "body_text (steady_server v tot n p) = ''{}''"
  by (simp_all add: steady_server_def ok_response_def raise_for_status_def)

lemma failing_first_response:
  "raise_for_status (failing_server tot 0 p) = Inr ()"
  "json (failing_server tot 0 p)
     = Some \<lparr>apiVersion = Some ''2.0.2'', has_request_params = True, response_total = Some tot\<rparr>"
  "body_text (failing_server tot 0 p) = ''{}''"
  "raise_for_status (failing_server tot (Suc 0) p) = Inl (HTTPError 500)"
  "body_text (failing_server tot (Suc 0) p) = ''Internal Server Error''"
  by (simp_all add: failing_server_def ok_response_def error_response_def raise_for_status_def)

lemma check_current_version:
  "check_api_version \<lparr>apiVersion = Some ''2.0.2'', has_request_params = True,
      response_total = Some tot\<rparr> = ([], Inr ())"
  using check_api_version_examples(1)
    [of "\<lparr>apiVersion = Some ''2.0.2'', has_request_params = True, response_total = Some tot\<rparr>"]
  by simp

lemma plain_env_ok: "0 < COPY_BUFSIZE plain_env" "\<not> io_fails plain_env op"
  "compress plain_env x = x"
  by (simp_all add: plain_env_def)

lemma json_elements_pos: "json_elements V n es \<Longrightarrow> 0 < n"
  by (induction rule: json_elements.induct) simp_all

lemma steady_download:
  "length_arg opts \<noteq> 0 \<Longrightarrow>
   get_fuel_receipts_costs_aggregates plain_env (steady_server (Some ''2.0.2'') tot) output_dir
       opts st0
     = (Inr (), finished_state plain_env (steady_server (Some ''2.0.2'') tot) output_dir opts
                  st0 [] tot)"
  by (rule download_ok [where rj = "\<lparr>apiVersion = Some ''2.0.2'', has_request_params = True,
        response_total = Some tot\<rparr>"])
    (simp_all add: steady_first_response check_current_version plain_env_ok)

section \<open>Properties of the version check\<close>

text \<open>
  C5. For every pair of version strings of three dot-separated parts, the check is
  decided by the first part that differs, read from the left: a different first part
  gives the warning of a major change, else a different second part the warning of a
  minor change, else a different third part only a log record of level info, else
  nothing at all; in each case the check returns normally. The parts are compared as
  strings. With the expected version 2.0.2 of the client: 2.0.2 is silent, 3.0.2 warns
  as major, 2.1.2 warns as minor, 2.0.5 is logged as a patch.
\<close>

theorem version_check_classifies:
  assumes "apiVersion rj = Some observed"
    and "split_on (CHR ''.'') expected = [e0, e1, e2]"
    and "split_on (CHR ''.'') observed = [o0, o1, o2]"
  shows "check_api_version_against expected rj =
           (if e0 \<noteq> o0 then ([Warn (major_msg expected observed)], Inr ())
            else if e1 \<noteq> o1 then ([Warn (minor_msg expected observed)], Inr ())
            else if e2 \<noteq> o2 then ([LogInfo (patch_msg expected observed)], Inr ())
            else ([], Inr ()))
         \<and> check_api_version (rj\<lparr>apiVersion := Some ''2.0.2''\<rparr>) = ([], Inr ())
         \<and> check_api_version (rj\<lparr>apiVersion := Some ''3.0.2''\<rparr>)
             = ([Warn (major_msg API_VERSION ''3.0.2'')], Inr ())
         \<and> check_api_version (rj\<lparr>apiVersion := Some ''2.1.2''\<rparr>)
             = ([Warn (minor_msg API_VERSION ''2.1.2'')], Inr ())
         \<and> check_api_version (rj\<lparr>apiVersion := Some ''2.0.5''\<rparr>)
             = ([LogInfo (patch_msg API_VERSION ''2.0.5'')], Inr ())"
  using assms
  by (simp add: check_api_version_against_def parts_differ_3 check_api_version_examples
      API_VERSION_def)

theorem version_check_classifies_witness:
  "apiVersion \<lparr>apiVersion = Some ''2.1.2'', has_request_params = True,
                response_total = Some 1\<rparr> = Some ''2.1.2''
   \<and> split_on (CHR ''.'') ''2.0.2'' = [''2'', ''0'', ''2'']
   \<and> split_on (CHR ''.'') ''2.1.2'' = [''2'', ''1'', ''2'']
   \<and> check_api_version_against ''2.0.2''
         \<lparr>apiVersion = Some ''2.1.2'', has_request_params = True, response_total = Some 1\<rparr>
       = ([Warn (minor_msg ''2.0.2'' ''2.1.2'')], Inr ())"
  using version_check_classifies
    [of "\<lparr>apiVersion = Some ''2.1.2'', has_request_params = True, response_total = Some 1\<rparr>"
        "''2.1.2''" "''2.0.2''" "''2''" "''0''" "''2''" "''2''" "''1''" "''2''"]
  by simp

text \<open>
  C10. The check does not return for every version string: when the observed version
  has fewer than three parts and the parts it has equal the expected ones, the
  comparison reaches an index the observed parts do not have and the check ends with an
  IndexError, with no warning and no log record. So it is for the observed version 2.0
  against the expected 2.0.2.
\<close>

theorem version_check_short_version_raises:
  assumes "apiVersion rj = Some observed"
    and "split_on (CHR ''.'') expected = [e0, e1, e2]"
    and "split_on (CHR ''.'') observed = [e0] \<or> split_on (CHR ''.'') observed = [e0, e1]"
  shows "check_api_version_against expected rj = ([], Inl IndexError)"
  using assms
  by (auto simp add: check_api_version_against_def parts_differ_def py_index_def)

theorem version_check_short_version_raises_witness:
  "apiVersion \<lparr>apiVersion = Some ''2.0'', has_request_params = True,
                response_total = Some 1\<rparr> = Some ''2.0''
   \<and> split_on (CHR ''.'') API_VERSION = [''2'', ''0'', ''2'']
   \<and> split_on (CHR ''.'') ''2.0'' = [''2'', ''0'']
   \<and> check_api_version
         \<lparr>apiVersion = Some ''2.0'', has_request_params = True, response_total = Some 1\<rparr>
       = ([], Inl IndexError)"
  using version_check_short_version_raises
    [of "\<lparr>apiVersion = Some ''2.0'', has_request_params = True, response_total = Some 1\<rparr>"
        "''2.0''" API_VERSION "''2''" "''0''" "''2''"]
  by (simp add: check_api_version_def API_VERSION_def)

section \<open>Properties of the compression\<close>

text \<open>
  C8. Whenever \<^verbatim>\<open>gzip_file\<close> returns normally, the file it read existed, the file
  named by the path with \<^verbatim>\<open>.gz\<close> appended holds an encoding that decodes to exactly
  the bytes of the source, and the source path has no file afterwards when deletion was
  asked for (and still holds the source otherwise). The encoding is a parameter: all
  that is used of it is that decoding undoes encoding. The block size of the copy is
  positive, as the platform's constant is.
\<close>

theorem gzip_file_roundtrip:
  assumes "gzip_file env filepath delete_uncompressed fs = (Inr (), fs')"
    and "0 < COPY_BUFSIZE env"
    and "\<forall>x. decompress (compress env x) = x"
  shows "\<exists>content. fs filepath = Some content
           \<and> map_option decompress (fs' (filepath @ ''.gz'')) = Some content
           \<and> fs' filepath = (if delete_uncompressed then None else Some content)"
proof -
  have ne: "filepath @ ''.gz'' \<noteq> filepath" by simp
  from gzip_file_ok [OF assms(1,2)] obtain c where
    "fs filepath = Some c"
    "fs' = (if delete_uncompressed
            then (fs(filepath @ ''.gz'' \<mapsto> compress env c))(filepath := None)
            else fs(filepath @ ''.gz'' \<mapsto> compress env c))"
    by blast
  with ne assms(3) show ?thesis by auto
qed

theorem gzip_file_roundtrip_witness:
  "gzip_file rev_env ''a.json'' True [''a.json'' \<mapsto> ''[{}]'']
     = (Inr (), snd (gzip_file rev_env ''a.json'' True [''a.json'' \<mapsto> ''[{}]'']))
   \<and> 0 < COPY_BUFSIZE rev_env
   \<and> (\<forall>x. rev (compress rev_env x) = x)
   \<and> map_option rev (snd (gzip_file rev_env ''a.json'' True [''a.json'' \<mapsto> ''[{}]''])
        ''a.json.gz'') = Some ''[{}]''
   \<and> snd (gzip_file rev_env ''a.json'' True [''a.json'' \<mapsto> ''[{}]'']) ''a.json'' = None"
proof -
  have run: "gzip_file rev_env ''a.json'' True [''a.json'' \<mapsto> ''[{}]'']
     = (Inr (), snd (gzip_file rev_env ''a.json'' True [''a.json'' \<mapsto> ''[{}]'']))"
    by (simp add: gzip_file_def rev_env_def copyfileobj.simps)
  have buf: "0 < COPY_BUFSIZE rev_env" by (simp add: rev_env_def)
  have codec: "\<forall>x. rev (compress rev_env x) = x" by (simp add: rev_env_def)
  from gzip_file_roundtrip [OF run buf codec] run buf codec show ?thesis by simp
qed

text \<open>
  C9. Whenever \<^verbatim>\<open>gzip_file\<close> ends with an exception, the source path holds what it
  held before the call: nothing is deleted. Unless the exception says that the source
  was not there in the first place, the source file therefore still exists. In the
  witness the second write of the copy fails.
\<close>

theorem gzip_file_error_keeps_source:
  assumes "gzip_file env filepath delete_uncompressed fs = (Inl e, fs')"
  shows "fs' filepath = fs filepath
         \<and> (e \<noteq> FileNotFoundError filepath \<longrightarrow> fs' filepath \<noteq> None)"
proof (cases "fs filepath")
  case None
  with assms show ?thesis by (simp add: gzip_file_def)
next
  case (Some c)
  have ne: "filepath @ ''.gz'' \<noteq> filepath" by simp
  obtain r w where cp: "copyfileobj (COPY_BUFSIZE env) (io_fails env) 0 c [] = (r, w)"
    by (cases "copyfileobj (COPY_BUFSIZE env) (io_fails env) 0 c []") 
  with assms Some ne show ?thesis
    by (auto simp add: gzip_file_def Let_def split: if_splits sum.splits)
qed

theorem gzip_file_error_keeps_source_witness:
  "gzip_file full_disk_env ''a.json'' True [''a.json'' \<mapsto> ''[{}]'']
     = (Inl OSError, [''a.json'' \<mapsto> ''[{}]'', ''a.json.gz'' \<mapsto> rev ''[{'']) 
   \<and> [''a.json'' \<mapsto> ''[{}]'', ''a.json.gz'' \<mapsto> rev ''[{''] ''a.json'' = Some ''[{}]''"
proof -
  have run: "gzip_file full_disk_env ''a.json'' True [''a.json'' \<mapsto> ''[{}]'']
     = (Inl OSError, [''a.json'' \<mapsto> ''[{}]'', ''a.json.gz'' \<mapsto> rev ''[{''])"
    by (simp add: gzip_file_def full_disk_env_def copyfileobj.simps)
  from gzip_file_error_keeps_source [OF run] run show ?thesis by simp
qed

section \<open>Properties of the parameter mapping\<close>

text \<open>
  C7. For all values of the eight query options, the parameter mapping holds exactly
  the options whose value is truthy or is the integer zero, in the order of the
  signature and with their values; the receiver, the output path and the set of
  excluded names never get in. So the offset is always there (zero included), an
  absent end bound is dropped, and an absent or empty field list is dropped. The
  builder is a total function with no exceptional result: it rejects nothing.
\<close>

theorem param_dict_keeps_truthy_or_zero:
  "param_dict_of opts = filter (\<lambda>(k, v). truthy v \<or> v = PInt 0) (named_options opts)
   \<and> map fst (named_options opts)
       = [''frequency'', ''data'', ''start'', ''end'', ''offset'', ''length'', ''facets'', ''sort'']
   \<and> dict_get (param_dict_of opts) k =
       (case dict_get (named_options opts) k of
          None \<Rightarrow> None
        | Some v \<Rightarrow> if truthy v \<or> v = PInt 0 then Some v else None)
   \<and> dict_get (param_dict_of opts) ''offset'' = Some (PInt (offset opts))
   \<and> (end_arg opts = None \<longrightarrow> dict_get (param_dict_of opts) ''end'' = None)
   \<and> (data opts = None \<or> data opts = Some [] \<longrightarrow> dict_get (param_dict_of opts) ''data'' = None)"
  using param_dict_of_eq [of opts] named_options_keys [of opts] dict_get_param_dict_of [of opts]
  by (auto simp add: named_options_def opt_val_def normalise_data_def)

theorem param_dict_keeps_truthy_or_zero_witness:
  "param_dict_of default_options =
     [(''frequency'', PStr ''annual''),
      (''data'', PList [PStr ''cost-per-btu'', PStr ''receipts-btu'']),
      (''start'', PStr ''2001''), (''offset'', PInt 0), (''length'', PInt 5000)]
   \<and> end_arg default_options = None
   \<and> dict_get (param_dict_of default_options) ''end'' = None
   \<and> data (default_options\<lparr>data := Some []\<rparr>) = Some []
   \<and> dict_get (param_dict_of (default_options\<lparr>data := Some []\<rparr>)) ''data'' = None"
  using param_dict_keeps_truthy_or_zero [of default_options "''end''"]
    param_dict_keeps_truthy_or_zero [of "default_options\<lparr>data := Some []\<rparr>" "''data''"]
  by (simp add: default_options_def named_options_def normalise_data_def opt_val_def)

section \<open>Properties of the page loop\<close>

text \<open>
  C1. Take a download whose first response is read as far as the total: its status is
  not an error, its body decodes, the version check returns, and the payload has the
  echoed parameters and the total. With a page length of at least 1 and a total of at
  least 0, \<^verbatim>\<open>_get_all_values\<close> returns normally, the requests it sends are those of
  the pages \<open>0\<close> to \<open>n - 1\<close>, and it appends to the file the bodies of exactly these
  \<open>n\<close> responses, with the separator between them. For a total of at least 1,
  \<open>n\<close> is the total divided by the page length and rounded up, which is the value of
  \<^verbatim>\<open>-(-total // length)\<close>; for the total 0 that value is 0, and \<open>n\<close> is 1. No upper
  bound on the page length is needed.
\<close>

theorem page_count:
  assumes "raise_for_status (srv (length (requests st0)) p) = Inr ()"
    and "json (srv (length (requests st0)) p) = Some rj"
    and "check_api_version rj = (evs, Inr ())"
    and "has_request_params rj"
    and "response_total rj = Some tot"
    and "dict_get p ''length'' = Some (PInt len)"
    and "1 \<le> len"
    and "0 \<le> tot"
  shows "fst (get_all_values srv p f st0) = Inr ()
       \<and> requests (snd (get_all_values srv p f st0))
           = requests st0 @ map (page_request p len) [0..<n_pages tot len]
       \<and> content_of (snd (get_all_values srv p f st0)) f
           = content_of st0 f @ join page_separator
               (page_bodies srv (length (requests st0)) p len (n_pages tot len))
       \<and> length (page_bodies srv (length (requests st0)) p len (n_pages tot len))
           = n_pages tot len
       \<and> (1 \<le> tot \<longrightarrow> int (n_pages tot len) = \<lceil>real_of_int tot / real_of_int len\<rceil>
                     \<and> int (n_pages tot len) = n_requests_of tot len)
       \<and> (tot = 0 \<longrightarrow> n_requests_of tot len = 0 \<and> n_pages tot len = 1)"
proof -
  from assms(7) have "len \<noteq> 0" by simp
  with assms have run: "get_all_values srv p f st0 =
           (Inr (),
            st0\<lparr>requests := requests st0 @ map (page_request p len) [0..<n_pages tot len],
                events := events st0 @ evs @ [LogDownloading tot (n_requests_of tot len)],
                files := (files st0)(f \<mapsto> content_of st0 f @
                  join page_separator
                    (page_bodies srv (length (requests st0)) p len (n_pages tot len)))\<rparr>)"
    by (intro get_all_values_ok)
  have pages: "int (n_pages tot len) = n_requests_of tot len" if "1 \<le> tot"
    using n_requests_pos [OF assms(7) that] by (simp add: n_pages_def max_def)
  have zero: "n_requests_of 0 len = 0 \<and> n_pages 0 len = 1"
    by (simp add: n_requests_of_def n_pages_def)
  show ?thesis
    using pages zero
    by (simp add: run content_of_def page_bodies_def n_requests_ceiling [symmetric])
qed


theorem page_count_witness:
  "(raise_for_status (steady_server (Some ''2.0.2'') 12000 (length (requests empty_state))
      (param_dict_of default_options)) = Inr ()
   \<and> json (steady_server (Some ''2.0.2'') 12000 (length (requests empty_state))
      (param_dict_of default_options))
       = Some \<lparr>apiVersion = Some ''2.0.2'', has_request_params = True,
                response_total = Some 12000\<rparr>
   \<and> check_api_version \<lparr>apiVersion = Some ''2.0.2'', has_request_params = True,
                response_total = Some 12000\<rparr> = ([], Inr ())
   \<and> dict_get (param_dict_of default_options) ''length'' = Some (PInt 5000)
   \<and> n_requests_of 12000 5000 = 3
   \<and> fst (get_all_values (steady_server (Some ''2.0.2'') 12000)
        (param_dict_of default_options) ''f'' empty_state) = Inr ()
   \<and> length (requests (snd (get_all_values (steady_server (Some ''2.0.2'') 12000)
        (param_dict_of default_options) ''f'' empty_state))) = 3
   \<and> content_of (snd (get_all_values (steady_server (Some ''2.0.2'') 12000)
        (param_dict_of default_options) ''f'' empty_state)) ''f''
       = ''{}'' @ page_separator @ ''{}'' @ page_separator @ ''{}'')
   \<and> (n_requests_of 0 5000 = 0
   \<and> length (requests (snd (get_all_values (steady_server (Some ''2.0.2'') 0)
        (param_dict_of default_options) ''f'' empty_state))) = 1
   \<and> content_of (snd (get_all_values (steady_server (Some ''2.0.2'') 0)
        (param_dict_of default_options) ''f'' empty_state)) ''f'' = ''{}'')"
  (is "?many \<and> ?none")
proof -
  let ?rj = "\<lparr>apiVersion = Some ''2.0.2'', has_request_params = True,
                response_total = Some 12000\<rparr>"
  have h1: "raise_for_status (steady_server (Some ''2.0.2'') 12000 (length (requests empty_state))
      (param_dict_of default_options)) = Inr ()"
    by (simp add: raise_for_status_def steady_server_def ok_response_def)
  have h2: "json (steady_server (Some ''2.0.2'') 12000 (length (requests empty_state))
      (param_dict_of default_options)) = Some ?rj"
    by (simp add: steady_server_def ok_response_def)
  have h3: "check_api_version ?rj = ([], Inr ())"
    using check_api_version_examples(1) [of ?rj] by simp
  have h4: "has_request_params ?rj" by simp
  have h5: "response_total ?rj = Some 12000" by simp
  have h6: "dict_get (param_dict_of default_options) ''length'' = Some (PInt 5000)"
    by (simp add: param_dict_of_length default_options_def)
  have n: "n_requests_of 12000 5000 = 3" "n_pages 12000 5000 = 3"
    by (simp_all add: n_requests_of_def n_pages_def)
  have three: "[0..<3] = [0, 1, 2]" by (simp add: upt_rec)
  let ?zj = "\<lparr>apiVersion = Some ''2.0.2'', has_request_params = True,
                response_total = Some 0\<rparr>"
  have z1: "raise_for_status (steady_server (Some ''2.0.2'') 0 (length (requests empty_state))
      (param_dict_of default_options)) = Inr ()"
    by (simp add: raise_for_status_def steady_server_def ok_response_def)
  have z2: "json (steady_server (Some ''2.0.2'') 0 (length (requests empty_state))
      (param_dict_of default_options)) = Some ?zj"
    by (simp add: steady_server_def ok_response_def)
  have z3: "check_api_version ?zj = ([], Inr ())"
    using check_api_version_examples(1) [of ?zj] by simp
  have many: ?many
    using page_count [of "steady_server (Some ''2.0.2'') 12000" empty_state
      "param_dict_of default_options" ?rj "[]" 12000 5000 "''f''", OF h1 h2 h3 _ _ h6]
      h1 h2 h3 h6 n
    by (simp add: three page_bodies_def steady_server_def ok_response_def content_of_def
        empty_state_def)
  have none: ?none
    using page_count [of "steady_server (Some ''2.0.2'') 0" empty_state
      "param_dict_of default_options" ?zj "[]" 0 5000 "''f''", OF z1 z2 z3 _ _ h6]
    by (simp add: page_bodies_def steady_server_def ok_response_def content_of_def
        empty_state_def)
  from many none show ?thesis by simp
qed

text \<open>
  C3, as the code has it. Take a download whose first response is read as far as the
  total, with a page length of at least 1. The requests are sent one after the other,
  and the offsets they carry are, in the order sent: the offset of the options for page
  \<open>0\<close>, then \<open>k\<close> times the page length for every page \<open>k \<ge> 1\<close>. From page 1 on the
  offsets increase strictly; they do so from page 0 on when the offset of the options is
  below the page length, and when it is 0 (the default) the offset of every page \<open>k\<close>
  is \<open>k\<close> times the page length. The counterexample starts at offset 10000 with pages
  of 5000: page 0 carries 10000, not 0, and page 1 carries 5000, which is smaller.
\<close>

theorem page_offsets:
  assumes "raise_for_status (srv (length (requests st0)) (param_dict_of opts)) = Inr ()"
    and "json (srv (length (requests st0)) (param_dict_of opts)) = Some rj"
    and "check_api_version rj = (evs, Inr ())"
    and "has_request_params rj"
    and "response_total rj = Some tot"
    and "1 \<le> length_arg opts"
  shows "map offset_of (drop (length (requests st0))
            (requests (snd (get_all_values srv (param_dict_of opts) f st0))))
           = map Some (offset opts #
               map (\<lambda>k. length_arg opts * int k) [1..<n_pages tot (length_arg opts)])
       \<and> sorted_wrt (<) (map (\<lambda>k. length_arg opts * int k) [1..<n_pages tot (length_arg opts)])
       \<and> (offset opts < length_arg opts \<longrightarrow>
            sorted_wrt (<) (offset opts #
               map (\<lambda>k. length_arg opts * int k) [1..<n_pages tot (length_arg opts)]))
       \<and> (offset opts = 0 \<longrightarrow>
            offset opts # map (\<lambda>k. length_arg opts * int k) [1..<n_pages tot (length_arg opts)]
              = map (\<lambda>k. length_arg opts * int k) [0..<n_pages tot (length_arg opts)])"
proof -
  let ?len = "length_arg opts"
  let ?n = "n_pages tot ?len"
  from assms(6) have len: "?len \<noteq> 0" "0 < ?len" by simp_all
  have pos: "0 < ?n" by (simp add: n_pages_def max_def)
  then have upt: "[0..<?n] = 0 # [1..<?n]" by (simp add: upt_conv_Cons)
  have "requests (snd (get_all_values srv (param_dict_of opts) f st0))
          = requests st0 @ map (page_request (param_dict_of opts) ?len) [0..<?n]"
    using get_all_values_ok [of srv st0 "param_dict_of opts" rj evs tot ?len f] assms(1-5) len
    by (simp add: param_dict_of_length)
  then have reqs: "map offset_of (drop (length (requests st0))
            (requests (snd (get_all_values srv (param_dict_of opts) f st0))))
           = map Some (offset opts # map (\<lambda>k. ?len * int k) [1..<?n])"
    by (simp add: upt offset_of_page_request comp_def)
  have incr: "sorted_wrt (<) (map (\<lambda>k. ?len * int k) [1..<?n])"
    using len by (rule_tac sorted_multiples) simp
  have first: "sorted_wrt (<) (offset opts # map (\<lambda>k. ?len * int k) [1..<?n])"
    if "offset opts < ?len"
  proof -
    have "offset opts < ?len * int k" if "1 \<le> k" for k
    proof -
      from that len have "?len * 1 \<le> ?len * int k" by (intro mult_left_mono) simp_all
      with \<open>offset opts < ?len\<close> show ?thesis by simp
    qed
    with incr show ?thesis by auto
  qed
  have zero: "offset opts # map (\<lambda>k. ?len * int k) [1..<?n] = map (\<lambda>k. ?len * int k) [0..<?n]"
    if "offset opts = 0"
    using that by (simp add: upt)
  from reqs incr first zero show ?thesis by blast
qed

theorem page_offsets_witness:
  "raise_for_status (steady_server (Some ''2.0.2'') 12000 (length (requests empty_state))
      (param_dict_of default_options)) = Inr ()
   \<and> json (steady_server (Some ''2.0.2'') 12000 (length (requests empty_state))
      (param_dict_of default_options))
       = Some \<lparr>apiVersion = Some ''2.0.2'', has_request_params = True,
                response_total = Some 12000\<rparr>
   \<and> check_api_version \<lparr>apiVersion = Some ''2.0.2'', has_request_params = True,
                response_total = Some 12000\<rparr> = ([], Inr ())
   \<and> 1 \<le> length_arg default_options
   \<and> offset default_options = 0
   \<and> map offset_of (drop (length (requests empty_state))
        (requests (snd (get_all_values (steady_server (Some ''2.0.2'') 12000)
           (param_dict_of default_options) ''f'' empty_state))))
       = [Some 0, Some 5000, Some 10000]
   \<and> sorted_wrt (<) [0, 5000, 10000 :: int]"
proof -
  let ?rj = "\<lparr>apiVersion = Some ''2.0.2'', has_request_params = True,
                response_total = Some 12000\<rparr>"
  have n: "n_pages 12000 5000 = 3" by (simp add: n_requests_of_def n_pages_def)
  have upt: "[Suc 0..<3] = [Suc 0, 2]" "[0..<3] = [0, Suc 0, 2]" by (simp_all add: upt_rec)
  have opts: "length_arg default_options = 5000" "offset default_options = 0"
    by (simp_all add: default_options_def)
  from page_offsets [of "steady_server (Some ''2.0.2'') 12000" empty_state default_options
      ?rj "[]" 12000 "''f''"]
  show ?thesis
    by (simp add: steady_first_response check_current_version opts n upt)
qed

theorem page_offsets_counterexample:
  "map offset_of (requests (snd (get_all_values (steady_server (Some ''2.0.2'') 10000)
      (param_dict_of (default_options\<lparr>offset := 10000\<rparr>)) ''f'' empty_state)))
     = [Some 10000, Some 5000]
   \<and> length_arg (default_options\<lparr>offset := 10000\<rparr>) = 5000
   \<and> [Some 10000, Some 5000] \<noteq> [Some (5000 * 0), Some (5000 * 1 :: int)]
   \<and> \<not> sorted_wrt (<) [10000, 5000 :: int]"
proof -
  let ?p = "param_dict_of (default_options\<lparr>offset := 10000\<rparr>)"
  let ?rj = "\<lparr>apiVersion = Some ''2.0.2'', has_request_params = True,
                response_total = Some 10000\<rparr>"
  have n: "n_pages 10000 5000 = 2" by (simp add: n_requests_of_def n_pages_def)
  have upt: "[0..<2] = [0, 1]" by (simp add: upt_rec)
  have len: "dict_get ?p ''length'' = Some (PInt 5000)"
    by (simp add: param_dict_of_length default_options_def)
  have "get_all_values (steady_server (Some ''2.0.2'') 10000) ?p ''f'' empty_state =
     (Inr (),
      empty_state\<lparr>requests := requests empty_state @ map (page_request ?p 5000) [0..<n_pages 10000 5000],
        events := events empty_state @ [] @ [LogDownloading 10000 (n_requests_of 10000 5000)],
        files := (files empty_state)(''f'' \<mapsto> content_of empty_state ''f'' @
          join page_separator
            (page_bodies (steady_server (Some ''2.0.2'') 10000) (length (requests empty_state))
               ?p 5000 (n_pages 10000 5000)))\<rparr>)"
    by (rule get_all_values_ok [where rj = ?rj])
      (simp_all add: steady_first_response check_current_version len)
  then have "map offset_of (requests (snd (get_all_values (steady_server (Some ''2.0.2'') 10000)
      ?p ''f'' empty_state))) = [Some 10000, Some 5000]"
    by (simp add: n upt empty_state_def page_request_def param_dict_of_default offset_of_def)
  moreover have "length_arg (default_options\<lparr>offset := 10000\<rparr>) = 5000"
    by (simp add: default_options_def)
  ultimately show ?thesis by simp
qed

section \<open>Properties of the whole download\<close>

text \<open>
  C4, as the code has it. Take a download that returns normally, and let \<open>tot\<close> be the
  total its first response reports. The text handed to the compression, which the
  compressed file then encodes while the uncompressed path is removed, is an opening
  bracket, the bodies of the pages in the order fetched, a comma and a newline between
  successive bodies, and a closing bracket. The number of bodies is the larger of 1 and
  the computed number of requests: one body when the total is 0. Consequently, whatever
  a valid JSON value is taken to be, if every body is one then the text is a JSON array
  of that many elements. In the counterexample the total is 0: the computed number of
  requests is 0, and the file is an array of one element, not of none.
\<close>

theorem aggregate_file_content:
  assumes "get_fuel_receipts_costs_aggregates env srv output_dir opts st0 = (Inr (), st')"
    and "0 < COPY_BUFSIZE env"
    and "json (srv (length (requests st0)) (param_dict_of opts)) = Some rj"
    and "response_total rj = Some tot"
  shows "files st' (out_path_of output_dir opts @ ''.gz'')
           = Some (compress env (''['' @ join page_separator
               (page_bodies srv (length (requests st0)) (param_dict_of opts) (length_arg opts)
                  (n_pages tot (length_arg opts))) @ '']''))
       \<and> files st' (out_path_of output_dir opts) = None
       \<and> length (page_bodies srv (length (requests st0)) (param_dict_of opts) (length_arg opts)
                  (n_pages tot (length_arg opts))) = n_pages tot (length_arg opts)
       \<and> int (n_pages tot (length_arg opts)) = max 1 (n_requests_of tot (length_arg opts))
       \<and> ((\<forall>b \<in> set (page_bodies srv (length (requests st0)) (param_dict_of opts)
                  (length_arg opts) (n_pages tot (length_arg opts))). V b) \<longrightarrow>
            json_array V (n_pages tot (length_arg opts))
              (''['' @ join page_separator
               (page_bodies srv (length (requests st0)) (param_dict_of opts) (length_arg opts)
                  (n_pages tot (length_arg opts))) @ '']''))"
proof -
  let ?bodies = "page_bodies srv (length (requests st0)) (param_dict_of opts) (length_arg opts)
                  (n_pages tot (length_arg opts))"
  from download_InrD [OF assms] obtain evs where
    st': "st' = finished_state env srv output_dir opts st0 evs tot" by blast
  have len: "length ?bodies = n_pages tot (length_arg opts)" by (simp add: page_bodies_def)
  have n: "int (n_pages tot (length_arg opts)) = max 1 (n_requests_of tot (length_arg opts))"
    by (simp add: n_pages_def)
  then have ne: "?bodies \<noteq> []" using len by (auto simp add: max_def split: if_splits)
  have arr: "json_array V (n_pages tot (length_arg opts))
               (''['' @ join page_separator ?bodies @ '']'')" if "\<forall>b \<in> set ?bodies. V b"
    using json_array_join [OF ne, of V] that len by (simp add: list_all_iff)
  from st' len n arr show ?thesis
    by (simp add: finished_state_files aggregate_text_def)
qed

theorem aggregate_file_content_witness:
  "get_fuel_receipts_costs_aggregates plain_env (steady_server (Some ''2.0.2'') 12000) ''out''
       default_options empty_state
     = (Inr (), finished_state plain_env (steady_server (Some ''2.0.2'') 12000) ''out''
                  default_options empty_state [] 12000)
   \<and> 0 < COPY_BUFSIZE plain_env
   \<and> json (steady_server (Some ''2.0.2'') 12000 (length (requests empty_state))
        (param_dict_of default_options))
       = Some \<lparr>apiVersion = Some ''2.0.2'', has_request_params = True,
                response_total = Some 12000\<rparr>
   \<and> files (finished_state plain_env (steady_server (Some ''2.0.2'') 12000) ''out''
                  default_options empty_state [] 12000)
         ''out/annual_cost-per-btu_receipts-btu_2001.json.gz''
       = Some (''[{}'' @ page_separator @ ''{}'' @ page_separator @ ''{}]'')
   \<and> files (finished_state plain_env (steady_server (Some ''2.0.2'') 12000) ''out''
                  default_options empty_state [] 12000)
         ''out/annual_cost-per-btu_receipts-btu_2001.json'' = None
   \<and> max 1 (n_requests_of 12000 (length_arg default_options)) = 3
   \<and> json_array (\<lambda>s. s = ''{}'') 3
        (''[{}'' @ page_separator @ ''{}'' @ page_separator @ ''{}]'')"
proof -
  let ?srv = "steady_server (Some ''2.0.2'') 12000"
  let ?rj = "\<lparr>apiVersion = Some ''2.0.2'', has_request_params = True,
                response_total = Some 12000\<rparr>"
  let ?st' = "finished_state plain_env ?srv ''out'' default_options empty_state [] 12000"
  have len: "length_arg default_options = 5000" by (simp add: default_options_def)
  have n: "n_pages 12000 5000 = 3" "n_requests_of 12000 5000 = 3"
    by (simp_all add: n_requests_of_def n_pages_def)
  have upt: "[0..<3] = [0, Suc 0, 2]" by (simp add: upt_rec)
  have run: "get_fuel_receipts_costs_aggregates plain_env ?srv ''out'' default_options
               empty_state = (Inr (), ?st')"
    by (rule steady_download) (simp add: len)
  have buf: "0 < COPY_BUFSIZE plain_env" by (simp add: plain_env_ok)
  have js: "json (?srv (length (requests empty_state)) (param_dict_of default_options))
              = Some ?rj"
    by (simp add: steady_first_response)
  have tot: "response_total ?rj = Some 12000" by simp
  from aggregate_file_content [OF run buf js tot, of "\<lambda>s. s = ''{}''"] run buf js
  show ?thesis
    by (simp add: len n upt page_bodies_def steady_first_response plain_env_ok
        out_path_of_default)
qed

theorem aggregate_file_content_counterexample:
  "n_requests_of 0 (length_arg default_options) = 0
   \<and> get_fuel_receipts_costs_aggregates plain_env (steady_server (Some ''2.0.2'') 0) ''out''
       default_options empty_state
     = (Inr (), finished_state plain_env (steady_server (Some ''2.0.2'') 0) ''out''
                  default_options empty_state [] 0)
   \<and> files (finished_state plain_env (steady_server (Some ''2.0.2'') 0) ''out''
                  default_options empty_state [] 0)
         ''out/annual_cost-per-btu_receipts-btu_2001.json.gz'' = Some ''[{}]''
   \<and> json_array (\<lambda>s. s = ''{}'') 1 ''[{}]''
   \<and> \<not> json_array (\<lambda>s. s = ''{}'') 0 ''[{}]''"
proof -
  let ?srv = "steady_server (Some ''2.0.2'') 0"
  have len: "length_arg default_options = 5000" by (simp add: default_options_def)
  have n: "n_pages 0 5000 = 1" "n_requests_of 0 5000 = 0"
    by (simp_all add: n_requests_of_def n_pages_def)
  have run: "get_fuel_receipts_costs_aggregates plain_env ?srv ''out'' default_options
               empty_state
             = (Inr (), finished_state plain_env ?srv ''out'' default_options empty_state [] 0)"
    by (rule steady_download) (simp add: len)
  have gz: "files (finished_state plain_env ?srv ''out'' default_options empty_state [] 0)
         ''out/annual_cost-per-btu_receipts-btu_2001.json.gz'' = Some ''[{}]''"
    using finished_state_files(1) [of plain_env ?srv "''out''" default_options empty_state "[]" 0]
    by (simp add: out_path_of_default aggregate_text_def len n page_bodies_def
        steady_first_response plain_env_ok)
  have one: "json_array (\<lambda>s. s = ''{}'') 1 ''[{}]''"
    using json_array_join [of "[''{}'']" "\<lambda>s. s = ''{}''"] by simp
  have none: "\<not> json_array (\<lambda>s. s = ''{}'') 0 ''[{}]''"
  proof
    assume "json_array (\<lambda>s. s = ''{}'') 0 ''[{}]''"
    then obtain w where w: "list_all ws_char w" "''[{}]'' = ''['' @ w @ '']''"
      unfolding json_array_def using json_elements_pos [of "\<lambda>s. s = ''{}''" 0] by blast
    then have "''{}'' @ '']'' = w @ '']''" by simp
    then have "w = ''{}''" by (simp only: append_same_eq)
    with w(1) show False by (simp add: ws_char_def)
  qed
  from run gz one none show ?thesis by (simp add: len n)
qed

text \<open>
  C2, what the code does. Only the first response is checked for its status. When the
  first response is read as far as the total and no file operation fails, a page
  \<open>k \<ge> 1\<close> whose response has an error status raises nothing: the download returns
  normally, the body of the failed response is among the bodies written, and the array
  is closed and compressed. (That an error status of the first response raises before
  any body is written, and leaves the file with the opening bracket and no compressed
  file, is lemma \<open>download_first_page_error\<close>.)
\<close>

theorem later_page_error_is_written:
  assumes "raise_for_status (srv (length (requests st0)) (param_dict_of opts)) = Inr ()"
    and "json (srv (length (requests st0)) (param_dict_of opts)) = Some rj"
    and "check_api_version rj = (evs, Inr ())"
    and "has_request_params rj"
    and "response_total rj = Some tot"
    and "length_arg opts \<noteq> 0"
    and "0 < COPY_BUFSIZE env"
    and "\<forall>op. \<not> io_fails env op"
    and "0 < k" and "k < n_pages tot (length_arg opts)"
    and "raise_for_status (srv (length (requests st0) + k)
           (page_request (param_dict_of opts) (length_arg opts) k)) = Inl e"
  shows "get_fuel_receipts_costs_aggregates env srv output_dir opts st0
           = (Inr (), finished_state env srv output_dir opts st0 evs tot)
       \<and> body_text (srv (length (requests st0) + k)
            (page_request (param_dict_of opts) (length_arg opts) k))
          \<in> set (page_bodies srv (length (requests st0)) (param_dict_of opts)
                   (length_arg opts) (n_pages tot (length_arg opts)))
       \<and> files (finished_state env srv output_dir opts st0 evs tot)
            (out_path_of output_dir opts @ ''.gz'')
           = Some (compress env (''['' @ join page_separator
               (page_bodies srv (length (requests st0)) (param_dict_of opts) (length_arg opts)
                  (n_pages tot (length_arg opts))) @ '']''))"
proof -
  from assms(8) have nofault: "\<And>op. \<not> io_fails env op" by simp
  have run: "get_fuel_receipts_costs_aggregates env srv output_dir opts st0
           = (Inr (), finished_state env srv output_dir opts st0 evs tot)"
    using download_ok [of srv st0 opts rj evs tot env output_dir] assms(1-7) nofault
    by blast
  from assms(10) have "body_text (srv (length (requests st0) + k)
            (page_request (param_dict_of opts) (length_arg opts) k))
          \<in> set (page_bodies srv (length (requests st0)) (param_dict_of opts)
                   (length_arg opts) (n_pages tot (length_arg opts)))"
    by (auto simp add: page_bodies_def)
  with run show ?thesis by (simp add: finished_state_files aggregate_text_def)
qed

theorem later_page_error_is_written_witness:
  "raise_for_status (failing_server 10000 (length (requests empty_state))
       (param_dict_of default_options)) = Inr ()
   \<and> raise_for_status (failing_server 10000 (length (requests empty_state) + 1)
       (page_request (param_dict_of default_options) (length_arg default_options) 1))
       = Inl (HTTPError 500)
   \<and> 1 < n_pages 10000 (length_arg default_options)
   \<and> get_fuel_receipts_costs_aggregates plain_env (failing_server 10000) ''out''
        default_options empty_state
       = (Inr (), finished_state plain_env (failing_server 10000) ''out'' default_options
                    empty_state [] 10000)
   \<and> files (finished_state plain_env (failing_server 10000) ''out'' default_options
                    empty_state [] 10000)
         ''out/annual_cost-per-btu_receipts-btu_2001.json.gz''
       = Some (''[{}'' @ page_separator @ ''Internal Server Error]'')"
proof -
  let ?srv = "failing_server 10000"
  let ?rj = "\<lparr>apiVersion = Some ''2.0.2'', has_request_params = True,
                response_total = Some 10000\<rparr>"
  have len: "length_arg default_options = 5000" by (simp add: default_options_def)
  have n: "n_pages 10000 5000 = 2" by (simp add: n_requests_of_def n_pages_def)
  have upt: "[0..<2] = [0, Suc 0]" by (simp add: upt_rec)
  have base: "length (requests empty_state) = 0" by (simp add: empty_state_def)
  have h1: "raise_for_status (?srv (length (requests empty_state))
              (param_dict_of default_options)) = Inr ()"
    by (simp add: base failing_first_response)
  have h2: "json (?srv (length (requests empty_state)) (param_dict_of default_options))
              = Some ?rj"
    by (simp add: base failing_first_response)
  have h3: "check_api_version ?rj = ([], Inr ())" by (rule check_current_version)
  have h4: "has_request_params ?rj" by simp
  have h5: "response_total ?rj = Some 10000" by simp
  have h6: "length_arg default_options \<noteq> 0" by (simp add: len)
  have h7: "0 < COPY_BUFSIZE plain_env" by (simp add: plain_env_ok)
  have h8: "\<forall>op. \<not> io_fails plain_env op" by (simp add: plain_env_ok)
  have h9: "0 < (1::nat)" by simp
  have h10: "1 < n_pages 10000 (length_arg default_options)" by (simp add: len n)
  have h11: "raise_for_status (?srv (length (requests empty_state) + 1)
       (page_request (param_dict_of default_options) (length_arg default_options) 1))
       = Inl (HTTPError 500)"
    by (simp add: base failing_first_response)
  from later_page_error_is_written [of ?srv empty_state default_options ?rj "[]" 10000
      plain_env 1 "HTTPError 500" "''out''", OF h1 h2 h3 h4 h5 h6 h7 h8 h9 h10 h11] h1 h11 h10
  show ?thesis
    by (simp add: len n upt base page_bodies_def failing_first_response plain_env_ok
        out_path_of_default)
qed

text \<open>
  C6, what the code does. When the payload of the first response has no version
  field, the check emits the warning and then ends with an UnboundLocalError, since it
  goes on to split the version it never read. The exception leaves the download: one
  request was sent, the file holds the opening bracket only, and nothing is compressed.
\<close>

theorem missing_version_aborts_download:
  assumes "raise_for_status (srv (length (requests st0)) (param_dict_of opts)) = Inr ()"
    and "json (srv (length (requests st0)) (param_dict_of opts)) = Some rj"
    and "apiVersion rj = None"
  shows "check_api_version rj
           = ([Warn version_unavailable_msg], Inl (UnboundLocalError ''observed_api_version''))
       \<and> get_fuel_receipts_costs_aggregates env srv output_dir opts st0
           = (Inl (UnboundLocalError ''observed_api_version''),
              st0\<lparr>requests := requests st0 @ [param_dict_of opts],
                  events := events st0 @ [Warn version_unavailable_msg],
                  files := (files st0)(out_path_of output_dir opts \<mapsto> ''['')\<rparr>)"
  using assms download_version_missing [of srv st0 opts rj env output_dir]
  by (simp add: check_api_version_def check_api_version_against_def)

theorem missing_version_aborts_download_witness:
  "raise_for_status (steady_server None 1 (length (requests empty_state))
       (param_dict_of default_options)) = Inr ()
   \<and> json (steady_server None 1 (length (requests empty_state))
       (param_dict_of default_options))
       = Some \<lparr>apiVersion = None, has_request_params = True, response_total = Some 1\<rparr>
   \<and> fst (get_fuel_receipts_costs_aggregates plain_env (steady_server None 1) ''out''
        default_options empty_state) = Inl (UnboundLocalError ''observed_api_version'')
   \<and> events (snd (get_fuel_receipts_costs_aggregates plain_env (steady_server None 1) ''out''
        default_options empty_state)) = [Warn version_unavailable_msg]
   \<and> files (snd (get_fuel_receipts_costs_aggregates plain_env (steady_server None 1) ''out''
        default_options empty_state)) ''out/annual_cost-per-btu_receipts-btu_2001.json''
       = Some ''[''
   \<and> files (snd (get_fuel_receipts_costs_aggregates plain_env (steady_server None 1) ''out''
        default_options empty_state)) ''out/annual_cost-per-btu_receipts-btu_2001.json.gz''
       = None"
proof -
  let ?rj = "\<lparr>apiVersion = None, has_request_params = True, response_total = Some 1\<rparr>"
  have h1: "raise_for_status (steady_server None 1 (length (requests empty_state))
       (param_dict_of default_options)) = Inr ()"
    by (simp add: steady_first_response)
  have h2: "json (steady_server None 1 (length (requests empty_state))
       (param_dict_of default_options)) = Some ?rj"
    by (simp add: steady_first_response)
  have h3: "apiVersion ?rj = None" by simp
  from missing_version_aborts_download [of "steady_server None 1" empty_state
      default_options ?rj plain_env "''out''", OF h1 h2 h3] h1 h2
  show ?thesis
    by (simp add: out_path_of_default empty_state_def)
qed

end
